theory Spec2Isabelle
  imports Main
begin

section \<open>The polling cache of \<open>useNetworkDevicesNoQuery.ts\<close>\<close>

text \<open>
  The hook \<open>useNetworkDevices\<close> keeps four pieces of React state (\<open>devices\<close>,
  \<open>isLoading\<close>, \<open>isFetching\<close>, \<open>error\<close>) and two refs (\<open>cacheRef\<close>,
  \<open>abortControllerRef\<close>). Its only operation is the async function \<open>fetchDevices\<close>,
  called with \<open>isInitialLoad = true\<close> by the effect on mount and with \<open>false\<close> by the
  poll timer and by \<open>refetch\<close>.

  The first part of this theory reads \<open>fetchDevices\<close> under its declared types and with
  every request continuing in the step in which it settles: the synchronous prefix up to
  the first \<open>await\<close> and the continuation are functions on the hook's state, and a run of
  the hook is a list of events. The second part drops the two restrictions: a body may
  parse to any value, and other code may run between the settling of a promise and the
  continuation that waits for it.
\<close>

subsection \<open>Devices as parsed JSON objects\<close>

text \<open>
  \<open>response.json()\<close> yields plain objects. An object is the list of its properties in
  insertion order, which is the order \<open>JSON.stringify\<close> walks them in. The keys are the
  seven fields of the interface \<open>NetworkDevice\<close>, all of them string-valued. Strings are
  byte lists (the UTF-8 encoding of a well-formed string).
\<close>

datatype field = FId | FName | FIp | FMac | FStatus | FType | FLastSeen

type_synonym device = "(field \<times> string) list"

fun field_name :: "field \<Rightarrow> string" where
  "field_name FId = ''id''"
| "field_name FName = ''name''"
| "field_name FIp = ''ip''"
| "field_name FMac = ''mac''"
| "field_name FStatus = ''status''"
| "field_name FType = ''type''"
| "field_name FLastSeen = ''lastSeen''"

definition all_fields :: "field list" where
  "all_fields = [FId, FName, FIp, FMac, FStatus, FType, FLastSeen]"

text \<open>
  A value of the interface: no key twice, the required fields \<open>id\<close>, \<open>name\<close>, \<open>ip\<close>,
  \<open>status\<close> present, and \<open>status\<close> one of the three literals.
\<close>

definition well_typed_device :: "device \<Rightarrow> bool" where
  "well_typed_device d =
     (distinct (map fst d)
      \<and> map_of d FId \<noteq> None \<and> map_of d FName \<noteq> None \<and> map_of d FIp \<noteq> None
      \<and> (map_of d FStatus = Some ''online'' \<or> map_of d FStatus = Some ''offline''
         \<or> map_of d FStatus = Some ''warning''))"

text \<open>
  Structural (deep) equality, as the specification words the comparison: two objects are
  equal when every key reads the same in both, whatever the order of the keys; two arrays
  are equal when they have the same length and equal elements at each index.
\<close>

definition deep_equal_device :: "device \<Rightarrow> device \<Rightarrow> bool" where
  "deep_equal_device a b = list_all (\<lambda>k. map_of a k = map_of b k) all_fields"

definition deep_equal :: "device list \<Rightarrow> device list \<Rightarrow> bool" where
  "deep_equal xs ys = list_all2 deep_equal_device xs ys"

subsection \<open>\<open>JSON.stringify\<close> on a device array\<close>

text \<open>
  \<open>QuoteJSONString\<close>: the two-character escapes for backspace, tab, line feed, form feed,
  carriage return, the double quote and the backslash; \<open>\u00hh\<close> with lower-case hex
  digits for the other code units below 0x20; every other code unit as it is.
\<close>

definition hex_digit :: "nat \<Rightarrow> char" where
  "hex_digit n = (if n < 10 then char_of (48 + n) else char_of (87 + n))"

definition json_escape_char :: "char \<Rightarrow> string" where
  "json_escape_char c =
     (if c = CHR 0x08 then [CHR 0x5C, CHR ''b'']
      else if c = CHR 0x09 then [CHR 0x5C, CHR ''t'']
      else if c = CHR 0x0A then [CHR 0x5C, CHR ''n'']
      else if c = CHR 0x0C then [CHR 0x5C, CHR ''f'']
      else if c = CHR 0x0D then [CHR 0x5C, CHR ''r'']
      else if c = CHR 0x22 then [CHR 0x5C, CHR 0x22]
      else if c = CHR 0x5C then [CHR 0x5C, CHR 0x5C]
      else if (of_char c :: nat) < 32
        then [CHR 0x5C, CHR ''u'', CHR ''0'', CHR ''0'',
              hex_digit (of_char c div 16), hex_digit (of_char c mod 16)]
      else [c])"

definition quoteJSONString :: "string \<Rightarrow> string" where
  "quoteJSONString s = CHR 0x22 # concat (map json_escape_char s) @ [CHR 0x22]"

definition serialize_property :: "field \<times> string \<Rightarrow> string" where
  "serialize_property p =
     quoteJSONString (field_name (fst p)) @ CHR '':'' # quoteJSONString (snd p)"

fun join_comma :: "string list \<Rightarrow> string" where
  "join_comma [] = []"
| "join_comma [x] = x"
| "join_comma (x # y # ys) = x @ CHR '','' # join_comma (y # ys)"

definition serialize_device :: "device \<Rightarrow> string" where
  "serialize_device d = CHR ''{'' # join_comma (map serialize_property d) @ [CHR ''}'']"

definition JSON_stringify :: "device list \<Rightarrow> string" where
  "JSON_stringify ds = CHR ''['' # join_comma (map serialize_device ds) @ [CHR '']'']"

subsection \<open>Errors and the awaited request\<close>

text \<open>
  A thrown value is an \<open>Error\<close> instance with its \<open>name\<close> and \<open>message\<close>, or some
  other value (the \<open>catch\<close> block tests \<open>err instanceof Error\<close>).
\<close>

datatype js_error = JsError (err_name: string) (err_message: string)

datatype thrown = ThrownError js_error | ThrownOther

text \<open>
  What the network delivers for one request: no response at all, or a response with its
  status code and a body that either fails to parse or parses to a device array, the
  declared type of \<open>newDevices\<close>. Bodies that parse to anything else are in the second part.
\<close>

datatype response_body = Malformed string | Json "device list"

datatype net_outcome = NetworkFailure string | HttpResponse nat response_body

text \<open>The result of an async function: its promise resolves or rejects.\<close>

datatype 'a promise = Resolved 'a | Rejected thrown

definition abort_error :: js_error where
  "abort_error = JsError ''AbortError'' ''The operation was aborted.''"

text \<open>
  \<open>await fetch('/api/devices', { signal })\<close>: a request whose signal is aborted rejects
  with an \<open>AbortError\<close> (a \<open>DOMException\<close>, which is an \<open>Error\<close> instance), a
  network failure rejects with a \<open>TypeError\<close>, and any HTTP response, whatever its
  status, resolves.
\<close>

definition fetch_api :: "bool \<Rightarrow> net_outcome \<Rightarrow> thrown + nat \<times> response_body" where
  "fetch_api sig_aborted out =
     (if sig_aborted then Inl (ThrownError abort_error)
      else case out of
        NetworkFailure msg \<Rightarrow> Inl (ThrownError (JsError ''TypeError'' msg))
      | HttpResponse status body \<Rightarrow> Inr (status, body))"

definition response_ok :: "nat \<Rightarrow> bool" where
  "response_ok status = (200 \<le> status \<and> status \<le> 299)"

definition response_json :: "response_body \<Rightarrow> thrown + device list" where
  "response_json body =
     (case body of
        Malformed msg \<Rightarrow> Inl (ThrownError (JsError ''SyntaxError'' msg))
      | Json ds \<Rightarrow> Inr ds)"

text \<open>The template literal \<open>${response.status}\<close>: the decimal digits of the status.\<close>

definition digit_char :: "nat \<Rightarrow> char" where
  "digit_char n = char_of (48 + n)"

function decimal :: "nat \<Rightarrow> string" where
  "decimal n = (if n < 10 then [digit_char n] else decimal (n div 10) @ [digit_char (n mod 10)])"
  by pat_completeness auto
termination
  by (relation "measure id") auto

declare decimal.simps [simp del]

subsection \<open>The hook's state\<close>

text \<open>
  \<open>devices\<close>, \<open>isLoading\<close>, \<open>isFetching\<close>, \<open>error\<close> are the \<open>useState\<close> cells and
  \<open>cacheRef\<close>, \<open>abortControllerRef\<close> the refs. \<open>AbortController\<close> objects live in a
  store: \<open>nextController\<close> is the next free address and \<open>aborted\<close> the addresses
  whose signal is aborted. \<open>pending\<close> lists the requests in flight, each named by the
  address of the controller whose signal it was given. \<open>devicesVersion\<close> counts the calls
  of \<open>setDevices\<close>: each call installs a freshly parsed array, a new identity.
  \<open>consoleErrors\<close> is what \<open>console.error\<close> has been given.
\<close>

record hook_state =
  devices :: "device list"
  isLoading :: bool
  isFetching :: bool
  error :: "js_error option"
  cacheRef :: "device list"
  abortControllerRef :: "nat option"
  aborted :: "nat set"
  nextController :: nat
  pending :: "nat list"
  devicesVersion :: nat
  consoleErrors :: "thrown list"

definition initial_state :: hook_state where
  "initial_state =
     \<lparr> devices = [], isLoading = True, isFetching = False, error = None,
       cacheRef = [], abortControllerRef = None,
       aborted = {}, nextController = 0, pending = [], devicesVersion = 0,
       consoleErrors = [] \<rparr>"

subsection \<open>\<open>fetchDevices\<close>\<close>

text \<open>
  The synchronous prefix: return at once when not \<open>enabled\<close>; otherwise abort the
  previous controller, allocate a new one, raise \<open>isFetching\<close> or \<open>isLoading\<close>, and
  issue the request with the new controller's signal.
\<close>

definition fetchDevices_start :: "bool \<Rightarrow> bool \<Rightarrow> hook_state \<Rightarrow> hook_state" where
  "fetchDevices_start enabled isInitialLoad s =
     (if \<not> enabled then s
      else
        let s1 = (case abortControllerRef s of
                    Some c \<Rightarrow> s\<lparr>aborted := insert c (aborted s)\<rparr>
                  | None \<Rightarrow> s);
            c' = nextController s1;
            s2 = s1\<lparr>abortControllerRef := Some c', nextController := Suc c'\<rparr>;
            s3 = (if length (cacheRef s2) > 0 \<and> \<not> isInitialLoad
                  then s2\<lparr>isFetching := True\<rparr>
                  else s2\<lparr>isLoading := True\<rparr>)
        in s3\<lparr>pending := pending s3 @ [c']\<rparr>)"

text \<open>The lines after \<open>const newDevices = await response.json()\<close> in the \<open>try\<close> block.\<close>

definition fetchDevices_success :: "device list \<Rightarrow> hook_state \<Rightarrow> hook_state" where
  "fetchDevices_success newDevices s =
     (let hasChanged = (JSON_stringify newDevices \<noteq> JSON_stringify (cacheRef s));
          s1 = (if hasChanged
                then s\<lparr>cacheRef := newDevices, devices := newDevices,
                       devicesVersion := Suc (devicesVersion s)\<rparr>
                else s)
      in s1\<lparr>error := None, isLoading := False, isFetching := False\<rparr>)"

text \<open>
  The \<open>try\<close> block from the first \<open>await\<close> on. Nothing is assigned before the last
  point that can throw, so a throw leaves the state as it was. The two awaits are one
  step: a request aborted before its body has been read rejects with \<open>AbortError\<close> at
  whichever await is waiting.
\<close>

definition fetchDevices_try :: "bool \<Rightarrow> net_outcome \<Rightarrow> hook_state \<Rightarrow> thrown + hook_state" where
  "fetchDevices_try sig_aborted out s =
     (case fetch_api sig_aborted out of
        Inl err \<Rightarrow> Inl err
      | Inr (status, body) \<Rightarrow>
          if \<not> response_ok status
          then Inl (ThrownError (JsError ''Error'' (''HTTP error! status: '' @ decimal status)))
          else (case response_json body of
                  Inl err \<Rightarrow> Inl err
                | Inr newDevices \<Rightarrow> Inr (fetchDevices_success newDevices s)))"

text \<open>The \<open>catch\<close> block.\<close>

definition fetchDevices_catch :: "thrown \<Rightarrow> hook_state \<Rightarrow> hook_state" where
  "fetchDevices_catch err s =
     (if (case err of ThrownError e \<Rightarrow> err_name e = ''AbortError'' | ThrownOther \<Rightarrow> False)
      then s
      else
        let s0 = s\<lparr>consoleErrors := consoleErrors s @ [err]\<rparr>;
            s1 = s0\<lparr>error := Some (case err of
                                     ThrownError e \<Rightarrow> e
                                   | ThrownOther \<Rightarrow> JsError ''Error'' ''Unknown error''),
                    isFetching := False\<rparr>
        in if length (cacheRef s1) > 0 then s1\<lparr>isLoading := False\<rparr> else s1)"

text \<open>
  The continuation of \<open>fetchDevices\<close> for the request issued with controller \<open>c\<close>, and
  the fate of the promise it returned: every throw of the \<open>try\<close> block lands in the
  \<open>catch\<close> block, and with an array in the cache the \<open>catch\<close> block has no statement
  that throws. The signal is read in the step in which the request settles, which in this
  part is also the step of the continuation.
\<close>

definition fetchDevices_resume :: "nat \<Rightarrow> net_outcome \<Rightarrow> hook_state \<Rightarrow> hook_state promise" where
  "fetchDevices_resume c out s =
     (case fetchDevices_try (c \<in> aborted s) out s of
        Inl err \<Rightarrow> Resolved (fetchDevices_catch err s)
      | Inr s' \<Rightarrow> Resolved s')"

text \<open>The effect's cleanup (\<open>clearInterval\<close> and the abort of the current controller).\<close>

definition effect_cleanup :: "hook_state \<Rightarrow> hook_state" where
  "effect_cleanup s =
     (case abortControllerRef s of
        Some c \<Rightarrow> s\<lparr>aborted := insert c (aborted s)\<rparr>
      | None \<Rightarrow> s)"

subsection \<open>Runs\<close>

text \<open>
  \<open>Call b\<close> is a call \<open>fetchDevices(b)\<close>: \<open>b = True\<close> from the effect, \<open>False\<close> from
  the timer or \<open>refetch\<close>. \<open>Settle c out\<close> is the settling of the request issued with
  controller \<open>c\<close>; a request settles once, so the event changes nothing unless \<open>c\<close> is
  in flight. Its continuation runs in the same step; the second part separates the two.
  \<open>Cleanup\<close> is the effect's cleanup.
\<close>

datatype event = Call bool | Settle nat net_outcome | Cleanup

definition step :: "bool \<Rightarrow> event \<Rightarrow> hook_state \<Rightarrow> hook_state" where
  "step enabled e s =
     (case e of
        Call isInitialLoad \<Rightarrow> fetchDevices_start enabled isInitialLoad s
      | Settle c out \<Rightarrow>
          if c \<in> set (pending s)
          then (case fetchDevices_resume c out s of
                  Resolved s' \<Rightarrow> s'\<lparr>pending := removeAll c (pending s')\<rparr>
                | Rejected err \<Rightarrow> s\<lparr>pending := removeAll c (pending s)\<rparr>)
          else s
      | Cleanup \<Rightarrow> effect_cleanup s)"

fun run :: "bool \<Rightarrow> event list \<Rightarrow> hook_state \<Rightarrow> hook_state" where
  "run enabled [] s = s"
| "run enabled (e # es) s = run enabled es (step enabled e s)"

subsection \<open>Example inputs\<close>

text \<open>
  The device of the specification's scenarios, the same device with its first two keys
  swapped, the state after the initial fetch has delivered the one-device snapshot, and
  the state after the initial fetch has delivered the empty snapshot.
\<close>

definition device_A :: device where
  "device_A = [(FId, ''1''), (FName, ''A''), (FIp, ''10.0.0.1''), (FStatus, ''online'')]"

definition device_A_reordered :: device where
  "device_A_reordered = [(FName, ''A''), (FId, ''1''), (FIp, ''10.0.0.1''), (FStatus, ''online'')]"

definition loaded_state :: hook_state where
  "loaded_state = run True [Call True, Settle 0 (HttpResponse 200 (Json [device_A]))] initial_state"

definition empty_snapshot_state :: hook_state where
  "empty_snapshot_state =
     run True [Call True, Settle 0 (HttpResponse 200 (Json []))] initial_state"

section \<open>The hook on the event loop, with untyped bodies\<close>

text \<open>
  The definitions above read the source under two restrictions: a parsed body is a value of
  the declared type \<open>NetworkDevice[]\<close>, and the continuation of a request runs in the same
  step as the settling of its promise. Neither is enforced at run time. \<open>response.json()\<close>
  returns whatever the body parses to, and a continuation is a job queued when the awaited
  promise settles: other code, a call of \<open>fetchDevices\<close> among it, can run before the job.
  This section is \<open>fetchDevices\<close> without the two restrictions. The earlier definitions are
  its restriction to device-array bodies and uninterrupted continuations (lemma
  \<open>typed_as_run\<close>).
\<close>

subsection \<open>The values a body parses to\<close>

text \<open>
  The code does three things with the parsed value and with \<open>cacheRef.current\<close>: it
  serialises them, it stores them, and it evaluates \<open>cacheRef.current.length > 0\<close>. A device
  array and \<open>null\<close> are what they are; any other JSON value (a boolean, a number, a string,
  an object) is given by its JSON text and by the truth of \<open>value.length > 0\<close>. Reading
  \<open>length\<close> of \<open>null\<close> throws a \<open>TypeError\<close>; on every other value it yields a number or
  \<open>undefined\<close>, and \<open>undefined > 0\<close> is false.
\<close>

datatype js_value = DeviceArray "device list" | JsNull | NonArray string bool

definition stringify_value :: "js_value \<Rightarrow> string" where
  "stringify_value v =
     (case v of
        DeviceArray ds \<Rightarrow> JSON_stringify ds
      | JsNull \<Rightarrow> ''null''
      | NonArray text positive \<Rightarrow> text)"

definition null_length_error :: js_error where
  "null_length_error = JsError ''TypeError'' ''Cannot read properties of null''"

definition length_positive :: "js_value \<Rightarrow> thrown + bool" where
  "length_positive v =
     (case v of
        DeviceArray ds \<Rightarrow> Inr (length ds > 0)
      | JsNull \<Rightarrow> Inl (ThrownError null_length_error)
      | NonArray text positive \<Rightarrow> Inr positive)"

subsection \<open>Suspended calls\<close>

text \<open>
  What the network delivers for the two promises a call awaits, and where a call is
  suspended: at \<open>await fetch(...)\<close> or at \<open>await response.json()\<close>, with the promise
  pending or settled. A settled promise keeps its result until the continuation runs.
\<close>

datatype fetch_result = NoResponse string | ResponseStatus nat

datatype json_result = BodyMalformed string | BodyValue js_value

datatype suspended =
    AtFetch
  | FetchDone "thrown + nat"
  | AtJson
  | JsonDone "thrown + js_value"

text \<open>
  The state: the cells and refs as before, now holding any value; \<open>calls\<close>, the suspended
  calls of \<open>fetchDevices\<close>, each named by the controller it allocated; and \<open>finished\<close>, the
  calls whose promise has settled, with \<open>None\<close> for a resolved promise and the thrown value
  for a rejected one.
\<close>

record loop_state =
  devices_rt :: js_value
  isLoading_rt :: bool
  isFetching_rt :: bool
  error_rt :: "js_error option"
  cacheRef_rt :: js_value
  abortControllerRef_rt :: "nat option"
  aborted_rt :: "nat set"
  nextController_rt :: nat
  calls :: "nat \<rightharpoonup> suspended"
  devicesVersion_rt :: nat
  consoleErrors_rt :: "thrown list"
  finished :: "(nat \<times> thrown option) list"


definition finish :: "nat \<Rightarrow> thrown option \<Rightarrow> loop_state \<Rightarrow> loop_state" where
  "finish c result s =
     s\<lparr>calls := (calls s)(c := None), finished := finished s @ [(c, result)]\<rparr>"


subsection \<open>\<open>fetchDevices\<close>, statement by statement\<close>

text \<open>
  The \<open>catch\<close> block of call \<open>c\<close>. Its last statement reads \<open>cacheRef.current.length\<close>;
  when that throws, the assignments before it stay and the promise of the call rejects.
\<close>

definition fetchDevices_catch_rt :: "nat \<Rightarrow> thrown \<Rightarrow> loop_state \<Rightarrow> loop_state" where
  "fetchDevices_catch_rt c err s =
     (if (case err of ThrownError e \<Rightarrow> err_name e = ''AbortError'' | ThrownOther \<Rightarrow> False)
      then finish c None s
      else
        let s0 = s\<lparr>consoleErrors_rt := consoleErrors_rt s @ [err]\<rparr>;
            s1 = s0\<lparr>error_rt := Some (case err of
                                        ThrownError e \<Rightarrow> e
                                      | ThrownOther \<Rightarrow> JsError ''Error'' ''Unknown error''),
                    isFetching_rt := False\<rparr>
        in case length_positive (cacheRef_rt s1) of
             Inl thrown_in_catch \<Rightarrow> finish c (Some thrown_in_catch) s1
           | Inr positive \<Rightarrow>
               finish c None (if positive then s1\<lparr>isLoading_rt := False\<rparr> else s1))"

text \<open>The lines after \<open>await response.json()\<close>; none of them throws.\<close>

definition fetchDevices_success_rt :: "nat \<Rightarrow> js_value \<Rightarrow> loop_state \<Rightarrow> loop_state" where
  "fetchDevices_success_rt c newDevices s =
     (let hasChanged = (stringify_value newDevices \<noteq> stringify_value (cacheRef_rt s));
          s1 = (if hasChanged
                then s\<lparr>cacheRef_rt := newDevices, devices_rt := newDevices,
                       devicesVersion_rt := Suc (devicesVersion_rt s)\<rparr>
                else s)
      in finish c None (s1\<lparr>error_rt := None, isLoading_rt := False, isFetching_rt := False\<rparr>))"

text \<open>
  A call, up to \<open>await fetch(...)\<close>. The test \<open>cacheRef.current.length > 0\<close> stands inside
  the \<open>try\<close> block, after the new controller is stored: when it throws, the \<open>catch\<close> block
  runs at once and no request is issued.
\<close>

definition fetchDevices_call :: "bool \<Rightarrow> bool \<Rightarrow> loop_state \<Rightarrow> loop_state" where
  "fetchDevices_call enabled isInitialLoad s =
     (if \<not> enabled then s
      else
        let s1 = (case abortControllerRef_rt s of
                    Some c \<Rightarrow> s\<lparr>aborted_rt := insert c (aborted_rt s)\<rparr>
                  | None \<Rightarrow> s);
            c' = nextController_rt s1;
            s2 = s1\<lparr>abortControllerRef_rt := Some c', nextController_rt := Suc c'\<rparr>
        in case length_positive (cacheRef_rt s2) of
             Inl err \<Rightarrow> fetchDevices_catch_rt c' err s2
           | Inr positive \<Rightarrow>
               (if positive \<and> \<not> isInitialLoad
                then s2\<lparr>isFetching_rt := True\<rparr>
                else s2\<lparr>isLoading_rt := True\<rparr>)
               \<lparr>calls := (calls s2)(c' \<mapsto> AtFetch)\<rparr>)"

text \<open>
  The two promises settle. A promise that is pending when its signal is aborted rejects
  with \<open>AbortError\<close>; \<open>abort()\<close> does nothing to a promise that has settled.
\<close>

definition settle_fetch :: "nat \<Rightarrow> fetch_result \<Rightarrow> loop_state \<Rightarrow> loop_state" where
  "settle_fetch c r s =
     (if calls s c = Some AtFetch
      then s\<lparr>calls := (calls s)(c \<mapsto> FetchDone
             (if c \<in> aborted_rt s then Inl (ThrownError abort_error)
              else case r of
                NoResponse msg \<Rightarrow> Inl (ThrownError (JsError ''TypeError'' msg))
              | ResponseStatus status \<Rightarrow> Inr status))\<rparr>
      else s)"

definition settle_json :: "nat \<Rightarrow> json_result \<Rightarrow> loop_state \<Rightarrow> loop_state" where
  "settle_json c r s =
     (if calls s c = Some AtJson
      then s\<lparr>calls := (calls s)(c \<mapsto> JsonDone
             (if c \<in> aborted_rt s then Inl (ThrownError abort_error)
              else case r of
                BodyMalformed msg \<Rightarrow> Inl (ThrownError (JsError ''SyntaxError'' msg))
              | BodyValue v \<Rightarrow> Inr v))\<rparr>
      else s)"

text \<open>
  The continuation of call \<open>c\<close> runs with the result its promise settled with. Between
  the \<open>await\<close> and the assignments the source consults neither the signal nor
  \<open>abortControllerRef\<close>.
\<close>

definition fetchDevices_continue :: "nat \<Rightarrow> loop_state \<Rightarrow> loop_state" where
  "fetchDevices_continue c s =
     (case calls s c of
        Some (FetchDone (Inl err)) \<Rightarrow> fetchDevices_catch_rt c err s
      | Some (FetchDone (Inr status)) \<Rightarrow>
          if \<not> response_ok status
          then fetchDevices_catch_rt c
                 (ThrownError (JsError ''Error'' (''HTTP error! status: '' @ decimal status))) s
          else s\<lparr>calls := (calls s)(c \<mapsto> AtJson)\<rparr>
      | Some (JsonDone (Inl err)) \<Rightarrow> fetchDevices_catch_rt c err s
      | Some (JsonDone (Inr newDevices)) \<Rightarrow> fetchDevices_success_rt c newDevices s
      | _ \<Rightarrow> s)"

definition effect_cleanup_rt :: "loop_state \<Rightarrow> loop_state" where
  "effect_cleanup_rt s =
     (case abortControllerRef_rt s of
        Some c \<Rightarrow> s\<lparr>aborted_rt := insert c (aborted_rt s)\<rparr>
      | None \<Rightarrow> s)"

subsection \<open>Runs on the event loop\<close>

datatype loop_event =
    Invoke bool
  | FetchSettles nat fetch_result
  | JsonSettles nat json_result
  | Resume nat
  | Teardown

definition loop_step :: "bool \<Rightarrow> loop_event \<Rightarrow> loop_state \<Rightarrow> loop_state" where
  "loop_step enabled e s =
     (case e of
        Invoke isInitialLoad \<Rightarrow> fetchDevices_call enabled isInitialLoad s
      | FetchSettles c r \<Rightarrow> settle_fetch c r s
      | JsonSettles c r \<Rightarrow> settle_json c r s
      | Resume c \<Rightarrow> fetchDevices_continue c s
      | Teardown \<Rightarrow> effect_cleanup_rt s)"

fun loop_run :: "bool \<Rightarrow> loop_event list \<Rightarrow> loop_state \<Rightarrow> loop_state" where
  "loop_run enabled [] s = s"
| "loop_run enabled (e # es) s = loop_run enabled es (loop_step enabled e s)"

subsection \<open>The typed, uninterrupted runs among them\<close>




subsection \<open>Example runs on the event loop\<close>



section \<open>The serialisation is injective\<close>

text \<open>
  Every piece of the serialisation is self-delimiting: an escaped character, a quoted
  string, a property, an object. So the text of an array determines the array, with the
  order of the properties of each object.
\<close>

lemma hex_digit_inj: "a < 16 \<Longrightarrow> b < 16 \<Longrightarrow> hex_digit a = hex_digit b \<Longrightarrow> a = b"
  by (auto simp: hex_digit_def char_of_quasi_inj split: if_splits)

lemma div_mod_16_eq:
  fixes m n :: nat
  assumes "m div 16 = n div 16" "m mod 16 = n mod 16"
  shows "m = n"
  by (metis assms div_mult_mod_eq)

lemma hex_pair_inj:
  assumes "(of_char c :: nat) < 32" "(of_char d :: nat) < 32"
    and "hex_digit (of_char c div 16) = hex_digit (of_char d div 16)"
    and "hex_digit (of_char c mod 16) = hex_digit (of_char d mod 16)"
  shows "c = d"
proof -
  have "(of_char c :: nat) div 16 < 16" "(of_char d :: nat) div 16 < 16"
    using assms(1,2) by simp_all
  then have "(of_char c :: nat) div 16 = of_char d div 16"
    using assms(3) hex_digit_inj by blast
  moreover have "(of_char c :: nat) mod 16 = of_char d mod 16"
    using assms(4) hex_digit_inj by simp
  ultimately have "(of_char c :: nat) = of_char d"
    by (rule div_mod_16_eq)
  then show ?thesis by simp
qed

lemma json_escape_char_cases:
  "json_escape_char c = [c] \<and> c \<noteq> CHR 0x5C \<and> c \<noteq> CHR 0x22
   \<or> (\<exists>t. json_escape_char c = CHR 0x5C # t)"
  by (auto simp: json_escape_char_def)

lemma json_escape_char_prefix:
  "json_escape_char c @ r = json_escape_char d @ r' \<Longrightarrow> c = d \<and> r = r'"
  by (auto simp: json_escape_char_def split: if_splits intro: hex_pair_inj)

lemma json_escape_char_not_quote:
  "json_escape_char c @ r = CHR 0x22 # r' \<Longrightarrow> False"
  "CHR 0x22 # r' = json_escape_char c @ r \<Longrightarrow> False"
  using json_escape_char_cases [of c] by auto

lemma escaped_body_inj:
  "concat (map json_escape_char s) @ CHR 0x22 # r = concat (map json_escape_char t) @ CHR 0x22 # r'
   \<Longrightarrow> s = t \<and> r = r'"
proof (induction s arbitrary: t)
  case Nil
  then show ?case
    by (cases t) (auto dest: json_escape_char_not_quote)
next
  case (Cons c s)
  show ?case
  proof (cases t)
    case Nil
    with Cons.prems show ?thesis
      by (auto dest: json_escape_char_not_quote)
  next
    case (Cons d t')
    with Cons.prems have
      "json_escape_char c @ (concat (map json_escape_char s) @ CHR 0x22 # r)
       = json_escape_char d @ (concat (map json_escape_char t') @ CHR 0x22 # r')"
      by simp
    then have "c = d" and
      "concat (map json_escape_char s) @ CHR 0x22 # r = concat (map json_escape_char t') @ CHR 0x22 # r'"
      using json_escape_char_prefix by blast+
    with Cons.IH Cons show ?thesis by blast
  qed
qed

lemma quoteJSONString_prefix:
  "quoteJSONString s @ r = quoteJSONString t @ r' \<Longrightarrow> s = t \<and> r = r'"
  using escaped_body_inj [of s r t r'] by (simp add: quoteJSONString_def)

lemma field_name_inj: "field_name k = field_name k' \<Longrightarrow> k = k'"
  by (cases k; cases k'; simp)

lemma serialize_property_prefix:
  assumes "serialize_property p @ r = serialize_property q @ r'"
  shows "p = q \<and> r = r'"
proof -
  from assms have
    "quoteJSONString (field_name (fst p)) @ (CHR '':'' # quoteJSONString (snd p) @ r)
     = quoteJSONString (field_name (fst q)) @ (CHR '':'' # quoteJSONString (snd q) @ r')"
    by (simp add: serialize_property_def)
  then have k: "field_name (fst p) = field_name (fst q)"
    and rest: "quoteJSONString (snd p) @ r = quoteJSONString (snd q) @ r'"
    using quoteJSONString_prefix by blast+
  from rest have "snd p = snd q" "r = r'"
    using quoteJSONString_prefix by blast+
  with k show ?thesis
    by (simp add: field_name_inj prod_eq_iff)
qed

lemma join_comma_Cons:
  "join_comma (x # xs) @ r = x @ (case xs of [] \<Rightarrow> r | _ # _ \<Rightarrow> CHR '','' # join_comma xs @ r)"
  by (cases xs) simp_all

lemma join_comma_closed_inj:
  assumes pre: "\<And>a b r r'. f a @ r = f b @ r' \<Longrightarrow> a = b \<and> r = r'"
    and hd1: "\<And>a r r'. f a @ r = cl # r' \<Longrightarrow> False"
    and cl: "cl \<noteq> CHR '',''"
  shows "join_comma (map f xs) @ cl # r = join_comma (map f ys) @ cl # r'
         \<Longrightarrow> xs = ys \<and> r = r'"
proof (induction xs arbitrary: ys)
  case Nil
  show ?case
  proof (cases ys)
    case Nil
    with Nil.prems show ?thesis by simp
  next
    case (Cons y ys')
    with Nil.prems have "f y @ (case map f ys' of [] \<Rightarrow> cl # r' | _ # _ \<Rightarrow> CHR '','' # join_comma (map f ys') @ cl # r') = cl # r"
      by (simp add: join_comma_Cons)
    then show ?thesis using hd1 by blast
  qed
next
  case (Cons x xs)
  show ?case
  proof (cases ys)
    case Nil
    with Cons.prems have "f x @ (case map f xs of [] \<Rightarrow> cl # r | _ # _ \<Rightarrow> CHR '','' # join_comma (map f xs) @ cl # r) = cl # r'"
      by (simp add: join_comma_Cons)
    then show ?thesis using hd1 by blast
  next
    case ys: (Cons y ys')
    with Cons.prems have
      "f x @ (case map f xs of [] \<Rightarrow> cl # r | _ # _ \<Rightarrow> CHR '','' # join_comma (map f xs) @ cl # r)
       = f y @ (case map f ys' of [] \<Rightarrow> cl # r' | _ # _ \<Rightarrow> CHR '','' # join_comma (map f ys') @ cl # r')"
      by (simp add: join_comma_Cons)
    then have xy: "x = y" and
      tl: "(case map f xs of [] \<Rightarrow> cl # r | _ # _ \<Rightarrow> CHR '','' # join_comma (map f xs) @ cl # r)
       = (case map f ys' of [] \<Rightarrow> cl # r' | _ # _ \<Rightarrow> CHR '','' # join_comma (map f ys') @ cl # r')"
      using pre by blast+
    have "xs = ys' \<and> r = r'"
    proof (cases xs)
      case Nil
      with tl cl show ?thesis by (cases ys') auto
    next
      case (Cons x' xs')
      with tl cl have "join_comma (map f xs) @ cl # r = join_comma (map f ys') @ cl # r'"
        by (cases ys') auto
      then show ?thesis by (rule Cons.IH)
    qed
    with xy ys show ?thesis by simp
  qed
qed

lemma serialize_device_prefix:
  assumes "serialize_device d @ r = serialize_device e @ r'"
  shows "d = e \<and> r = r'"
proof -
  have "join_comma (map serialize_property d) @ CHR ''}'' # r
        = join_comma (map serialize_property e) @ CHR ''}'' # r'"
    using assms by (simp add: serialize_device_def)
  then show ?thesis
  proof (rule join_comma_closed_inj [rotated -1])
    show "\<And>a b r r'. serialize_property a @ r = serialize_property b @ r' \<Longrightarrow> a = b \<and> r = r'"
      by (rule serialize_property_prefix)
    show "\<And>a r r'. serialize_property a @ r = CHR ''}'' # r' \<Longrightarrow> False"
      by (simp add: serialize_property_def quoteJSONString_def)
    show "CHR ''}'' \<noteq> CHR '',''" by simp
  qed
qed

lemma JSON_stringify_inj:
  assumes "JSON_stringify xs = JSON_stringify ys"
  shows "xs = ys"
proof -
  have "join_comma (map serialize_device xs) @ CHR '']'' # [] 
        = join_comma (map serialize_device ys) @ CHR '']'' # []"
    using assms by (simp add: JSON_stringify_def)
  then have "xs = ys \<and> ([]::string) = []"
  proof (rule join_comma_closed_inj [rotated -1])
    show "\<And>a b r r'. serialize_device a @ r = serialize_device b @ r' \<Longrightarrow> a = b \<and> r = r'"
      by (rule serialize_device_prefix)
    show "\<And>a r r'. serialize_device a @ r = CHR '']'' # r' \<Longrightarrow> False"
      by (simp add: serialize_device_def)
    show "CHR '']'' \<noteq> CHR '',''" by simp
  qed
  then show ?thesis by simp
qed

lemma JSON_stringify_eq_iff [simp]: "JSON_stringify xs = JSON_stringify ys \<longleftrightarrow> xs = ys"
  using JSON_stringify_inj by blast

section \<open>The pieces of \<open>fetchDevices\<close>, field by field\<close>

lemma deep_equal_device_refl: "deep_equal_device d d"
  by (simp add: deep_equal_device_def list_all_iff)

lemma deep_equal_refl: "deep_equal xs xs"
  by (simp add: deep_equal_def list_all2_refl deep_equal_device_refl)

lemma fetchDevices_success_devices:
  "devices (fetchDevices_success ds s) = (if ds = cacheRef s then devices s else ds)"
  "cacheRef (fetchDevices_success ds s) = ds"
  "devicesVersion (fetchDevices_success ds s) = (if ds = cacheRef s then devicesVersion s else Suc (devicesVersion s))"
  "error (fetchDevices_success ds s) = None"
  "isLoading (fetchDevices_success ds s) = False"
  "isFetching (fetchDevices_success ds s) = False"
  "abortControllerRef (fetchDevices_success ds s) = abortControllerRef s"
  "aborted (fetchDevices_success ds s) = aborted s"
  "nextController (fetchDevices_success ds s) = nextController s"
  "pending (fetchDevices_success ds s) = pending s"
  by (simp_all add: fetchDevices_success_def Let_def)

lemma fetchDevices_catch_fields:
  "devices (fetchDevices_catch err s) = devices s"
  "cacheRef (fetchDevices_catch err s) = cacheRef s"
  "devicesVersion (fetchDevices_catch err s) = devicesVersion s"
  "abortControllerRef (fetchDevices_catch err s) = abortControllerRef s"
  "aborted (fetchDevices_catch err s) = aborted s"
  "nextController (fetchDevices_catch err s) = nextController s"
  "pending (fetchDevices_catch err s) = pending s"
  by (simp_all add: fetchDevices_catch_def Let_def)

lemma fetchDevices_start_fields:
  "devices (fetchDevices_start en b s) = devices s"
  "cacheRef (fetchDevices_start en b s) = cacheRef s"
  "devicesVersion (fetchDevices_start en b s) = devicesVersion s"
  "error (fetchDevices_start en b s) = error s"
  by (simp_all add: fetchDevices_start_def Let_def split: option.split)

lemma effect_cleanup_fields:
  "devices (effect_cleanup s) = devices s"
  "cacheRef (effect_cleanup s) = cacheRef s"
  "devicesVersion (effect_cleanup s) = devicesVersion s"
  "error (effect_cleanup s) = error s"
  "isLoading (effect_cleanup s) = isLoading s"
  "isFetching (effect_cleanup s) = isFetching s"
  "abortControllerRef (effect_cleanup s) = abortControllerRef s"
  "nextController (effect_cleanup s) = nextController s"
  "pending (effect_cleanup s) = pending s"
  by (simp_all add: effect_cleanup_def split: option.split)

lemma fetchDevices_resume_cases:
  "fetchDevices_resume c out s = Resolved s
   \<or> (\<exists>err. fetchDevices_resume c out s = Resolved (fetchDevices_catch err s))
   \<or> (\<exists>st ds. out = HttpResponse st (Json ds) \<and> response_ok st \<and> c \<notin> aborted s
        \<and> fetchDevices_resume c out s = Resolved (fetchDevices_success ds s))"
  by (auto simp: fetchDevices_resume_def fetchDevices_try_def fetch_api_def response_json_def
      split: net_outcome.split response_body.split)

section \<open>An aborted request\<close>

lemma resume_aborted: "c \<in> aborted s \<Longrightarrow> fetchDevices_resume c out s = Resolved s"
  by (simp add: fetchDevices_resume_def fetchDevices_try_def fetch_api_def
      fetchDevices_catch_def abort_error_def)

section \<open>Evaluating concrete runs\<close>

lemmas eval_defs =
  step_def fetchDevices_start_def fetchDevices_resume_def fetchDevices_try_def
  fetchDevices_catch_def fetchDevices_success_def fetch_api_def response_json_def
  response_ok_def effect_cleanup_def initial_state_def abort_error_def Let_def

lemma loaded_state_eq:
  "loaded_state =
     \<lparr> devices = [device_A], isLoading = False, isFetching = False, error = None,
       cacheRef = [device_A], abortControllerRef = Some 0,
       aborted = {}, nextController = Suc 0, pending = [], devicesVersion = Suc 0,
       consoleErrors = [] \<rparr>"
  by (simp add: loaded_state_def eval_defs)

lemma step_devices_cache:
  "devices (step en e s) = devices s \<and> cacheRef (step en e s) = cacheRef s
   \<or> devices (step en e s) = cacheRef (step en e s)"
proof (cases e)
  case (Call b)
  then show ?thesis by (simp add: step_def fetchDevices_start_fields)
next
  case (Settle c out)
  show ?thesis
    using fetchDevices_resume_cases [of c out s] Settle
    by (auto simp: step_def fetchDevices_catch_fields fetchDevices_success_devices
        split: if_splits)
next
  case Cleanup
  then show ?thesis by (simp add: step_def effect_cleanup_fields)
qed

lemma run_devices_cache:
  "devices s = cacheRef s \<Longrightarrow> devices (run en evs s) = cacheRef (run en evs s)"
proof (induction evs arbitrary: s)
  case Nil
  then show ?case by simp
next
  case (Cons e evs)
  have "devices (step en e s) = cacheRef (step en e s)"
    using step_devices_cache [of en e s] Cons.prems by auto
  then show ?case by (simp add: Cons.IH)
qed

section \<open>What one event can change\<close>

lemma step_changes_devices:
  assumes "devices (step en e s) \<noteq> devices s"
  shows "\<exists>c st. e = Settle c (HttpResponse st (Json (devices (step en e s)))) \<and> response_ok st
          \<and> c \<in> set (pending s) \<and> c \<notin> aborted s"
proof (cases e)
  case (Call b)
  with assms show ?thesis by (simp add: step_def fetchDevices_start_fields)
next
  case (Settle c out)
  show ?thesis
    using fetchDevices_resume_cases [of c out s] Settle assms
    by (auto simp: step_def fetchDevices_catch_fields fetchDevices_success_devices
        split: if_splits)
next
  case Cleanup
  with assms show ?thesis by (simp add: step_def effect_cleanup_fields)
qed

lemma run_devices_nonempty:
  assumes "\<forall>c st. response_ok st \<longrightarrow> Settle c (HttpResponse st (Json [])) \<notin> set evs"
    and "devices s \<noteq> []"
  shows "devices (run en evs s) \<noteq> []"
  using assms
proof (induction evs arbitrary: s)
  case Nil
  then show ?case by simp
next
  case (Cons e evs)
  have "devices (step en e s) \<noteq> []"
  proof (cases "devices (step en e s) = devices s")
    case True
    with Cons.prems show ?thesis by simp
  next
    case False
    then obtain c st where "e = Settle c (HttpResponse st (Json (devices (step en e s))))"
      and "response_ok st"
      using step_changes_devices by blast
    with Cons.prems(1) show ?thesis by (cases "devices (step en e s)") fastforce+
  qed
  with Cons show ?case by simp
qed

lemma fetchDevices_start_isLoading:
  "isLoading (fetchDevices_start en b s) = (isLoading s \<or> en \<and> (b \<or> cacheRef s = []))"
  by (auto simp: fetchDevices_start_def Let_def split: option.split)

lemma fetchDevices_start_isFetching:
  "isFetching (fetchDevices_start en b s) = (isFetching s \<or> en \<and> \<not> b \<and> cacheRef s \<noteq> [])"
  by (auto simp: fetchDevices_start_def Let_def split: option.split)

section \<open>The failure branch\<close>

lemma try_aborted: "fetchDevices_try True out s = Inl (ThrownError abort_error)"
  by (simp add: fetchDevices_try_def fetch_api_def)

lemma try_not_aborted_error_name:
  assumes "fetchDevices_try False out s = Inl err"
  shows "\<exists>e. err = ThrownError e \<and> err_name e \<noteq> ''AbortError''"
  using assms
  by (auto simp: fetchDevices_try_def fetch_api_def response_json_def
      split: net_outcome.splits response_body.splits if_splits)

lemma try_fails_iff:
  "(\<exists>err. fetchDevices_try False out s = Inl err)
     \<longleftrightarrow> (case out of
            NetworkFailure msg \<Rightarrow> True
          | HttpResponse st body \<Rightarrow>
              \<not> response_ok st \<or> (case body of Malformed msg \<Rightarrow> True | Json ds \<Rightarrow> False))"
  by (auto simp: fetchDevices_try_def fetch_api_def response_json_def
      split: net_outcome.splits response_body.splits)

lemma fetchDevices_catch_failure:
  assumes "err_name e \<noteq> ''AbortError''"
  shows "error (fetchDevices_catch (ThrownError e) s) = Some e"
    and "isFetching (fetchDevices_catch (ThrownError e) s) = False"
    and "isLoading (fetchDevices_catch (ThrownError e) s) = (isLoading s \<and> cacheRef s = [])"
    and "consoleErrors (fetchDevices_catch (ThrownError e) s) = consoleErrors s @ [ThrownError e]"
  using assms by (simp_all add: fetchDevices_catch_def Let_def)

section \<open>The status in the error message\<close>

lemma decimal_nonempty: "decimal n \<noteq> []"
  by (subst decimal.simps) simp

lemma digit_char_inj: "a < 10 \<Longrightarrow> b < 10 \<Longrightarrow> digit_char a = digit_char b \<Longrightarrow> a = b"
  by (simp add: digit_char_def char_of_quasi_inj)

lemma decimal_inj: "decimal m = decimal n \<Longrightarrow> m = n"
proof (induction m arbitrary: n rule: decimal.induct)
  case (1 m)
  show ?case
  proof (cases "m < 10")
    case small_m: True
    show ?thesis
    proof (cases "n < 10")
      case True
      with small_m "1.prems" show ?thesis
        by (simp add: decimal.simps [of m] decimal.simps [of n] digit_char_inj)
    next
      case False
      with small_m "1.prems" show ?thesis
        using decimal_nonempty [of "n div 10"]
        by (simp add: decimal.simps [of m] decimal.simps [of n])
    qed
  next
    case big_m: False
    show ?thesis
    proof (cases "n < 10")
      case True
      with big_m "1.prems" show ?thesis
        using decimal_nonempty [of "m div 10"]
        by (simp add: decimal.simps [of m] decimal.simps [of n])
    next
      case False
      with big_m "1.prems" have "decimal (m div 10) = decimal (n div 10)"
        and "digit_char (m mod 10) = digit_char (n mod 10)"
        by (simp_all add: decimal.simps [of m] decimal.simps [of n])
      then have "m div 10 = n div 10" and "m mod 10 = n mod 10"
        using "1.IH" big_m digit_char_inj by simp_all
      then show ?thesis
        by (metis div_mult_mod_eq)
    qed
  qed
qed

lemma decimal_503: "decimal 503 = ''503''"
  by code_simp

section \<open>The first model inside the event loop\<close>

text \<open>
  Every run of the first model is a run of the event loop: the states stay related, event
  by event, and no promise is rejected on the way.
\<close>

lemma stringify_value_DeviceArray [simp]:
  "stringify_value (DeviceArray xs) = stringify_value (DeviceArray ys) \<longleftrightarrow> xs = ys"
  by (simp add: stringify_value_def)

lemma JSON_stringify_not_null [simp]:
  "JSON_stringify ds \<noteq> ''null''" "''null'' \<noteq> JSON_stringify ds"
  by (simp_all add: JSON_stringify_def)

lemma length_positive_DeviceArray [simp]:
  "length_positive (DeviceArray ds) = Inr (ds \<noteq> [])"
  by (simp add: length_positive_def)




lemmas loop_defs =
  loop_step_def fetchDevices_call_def fetchDevices_continue_def fetchDevices_catch_rt_def
  fetchDevices_success_rt_def settle_fetch_def settle_json_def effect_cleanup_rt_def finish_def
  response_ok_def abort_error_def Let_def










text \<open>
  On the event loop too, with any bodies and any interleaving, \<open>devices\<close> and the cache
  are assigned together.
\<close>

lemma loop_step_devices_cache:
  assumes "devices_rt s = cacheRef_rt s"
  shows "devices_rt (loop_step en e s) = cacheRef_rt (loop_step en e s)"
proof (cases e)
  case (Invoke b)
  with assms show ?thesis
    by (simp add: loop_step_def fetchDevices_call_def fetchDevices_catch_rt_def finish_def
        Let_def split: option.split sum.split)
next
  case (FetchSettles c r)
  with assms show ?thesis by (simp add: loop_step_def settle_fetch_def)
next
  case (JsonSettles c r)
  with assms show ?thesis by (simp add: loop_step_def settle_json_def)
next
  case (Resume c)
  with assms show ?thesis
    by (simp add: loop_step_def fetchDevices_continue_def fetchDevices_catch_rt_def
        fetchDevices_success_rt_def finish_def Let_def
        split: option.split suspended.split sum.split)
next
  case Teardown
  with assms show ?thesis
    by (simp add: loop_step_def effect_cleanup_rt_def split: option.split)
qed

lemma loop_run_devices_cache:
  "devices_rt s = cacheRef_rt s \<Longrightarrow>
     devices_rt (loop_run en evs s) = cacheRef_rt (loop_run en evs s)"
  by (induction evs arbitrary: s) (simp_all add: loop_step_devices_cache)

section \<open>Rejected promises\<close>








section \<open>The claims\<close>

subsection \<open>C1: failures keep the device list\<close>

text \<open>
  C1, as amended. Once \<open>devices\<close> is non-empty it stays non-empty through every sequence
  of events in which no successful fetch delivers an empty array, whatever fails in
  between; the \<open>catch\<close> block never assigns \<open>devices\<close>; and an event that changes
  \<open>devices\<close> is the settling of a request with a 2xx response whose parsed body is the
  new value of \<open>devices\<close>.
\<close>

theorem failures_keep_devices:
  assumes "\<forall>c st. response_ok st \<longrightarrow> Settle c (HttpResponse st (Json [])) \<notin> set evs"
    and "devices s \<noteq> []"
  shows "devices (run en evs s) \<noteq> []
     \<and> devices (fetchDevices_catch err s) = devices s
     \<and> (devices (step en e s) \<noteq> devices s \<longrightarrow>
           (\<exists>c st. e = Settle c (HttpResponse st (Json (devices (step en e s))))
                   \<and> response_ok st))"
  using run_devices_nonempty [OF assms] step_changes_devices [of en e s]
  by (simp add: fetchDevices_catch_fields) blast

theorem failures_keep_devices_witness:
  "devices (fetchDevices_start True False loaded_state) \<noteq> []
   \<and> devices (run True [Settle 1 (NetworkFailure ''Failed to fetch''),
                       Call False, Settle 2 (HttpResponse 500 (Json [])),
                       Call False, Settle 3 (HttpResponse 200 (Malformed ''Unexpected token''))]
               (fetchDevices_start True False loaded_state)) \<noteq> []
   \<and> devices (step True (Settle 1 (HttpResponse 200 (Json [device_A, device_A])))
        (fetchDevices_start True False loaded_state))
      \<noteq> devices (fetchDevices_start True False loaded_state)
   \<and> devices (step True (Settle 1 (HttpResponse 200 (Json [device_A, device_A])))
        (fetchDevices_start True False loaded_state)) = [device_A, device_A]"
proof -
  have h1: "\<forall>c st. response_ok st \<longrightarrow> Settle c (HttpResponse st (Json []))
      \<notin> set [Settle 1 (NetworkFailure ''Failed to fetch''),
              Call False, Settle 2 (HttpResponse 500 (Json [])),
              Call False, Settle 3 (HttpResponse 200 (Malformed ''Unexpected token''))]"
    by (simp add: response_ok_def)
  have h2: "devices (fetchDevices_start True False loaded_state) \<noteq> []"
    by (simp add: loaded_state_eq eval_defs)
  have h3: "devices (step True (Settle 1 (HttpResponse 200 (Json [device_A, device_A])))
        (fetchDevices_start True False loaded_state))
      \<noteq> devices (fetchDevices_start True False loaded_state)"
    by (simp add: loaded_state_eq eval_defs)
  show ?thesis
    using failures_keep_devices [OF h1 h2, of True _
        "Settle 1 (HttpResponse 200 (Json [device_A, device_A]))"] h2 h3
    by auto
qed

text \<open>
  C1 as stated fails: with the one-device snapshot cached, the poll tick's request is
  answered \<open>200\<close> with the body \<open>[]\<close>; the serialisations differ, so \<open>setDevices([])\<close>
  runs and \<open>devices\<close> is empty.
\<close>

theorem empty_snapshot_empties_devices:
  "cacheRef loaded_state \<noteq> [] \<and> devices loaded_state \<noteq> []
   \<and> devices (run True [Call False, Settle 1 (HttpResponse 200 (Json []))] loaded_state) = []"
  by (simp add: loaded_state_eq eval_defs)

subsection \<open>C2: \<open>isLoading\<close> after the first fetch\<close>

text \<open>
  C2 says that \<open>isLoading\<close> is true from the creation of the state until the first fetch
  resolves, and is never set to true again by a later poll tick, refetch or failure
  handler. The code does not keep the second half. The initial fetch is answered \<open>200\<close>
  with the body \<open>[]\<close> and \<open>isLoading\<close> becomes false; the next poll tick calls
  \<open>fetchDevices(false)\<close>, the test \<open>cacheRef.current.length > 0\<close> fails on the empty cache,
  and \<open>setIsLoading(true)\<close> runs. The comment above that test says that a call which is
  not the first load shows background fetching, and the component shows its loading
  screen on \<open>isLoading\<close> with an empty list.
\<close>

theorem poll_after_empty_snapshot_reasserts_isLoading:
  "\<not> isLoading (run True [Call True, Settle 0 (HttpResponse 200 (Json []))] initial_state)
   \<and> isLoading (run True [Call True, Settle 0 (HttpResponse 200 (Json [])), Call False]
                 initial_state)"
  by (simp add: eval_defs)

subsection \<open>C3: a superseded request whose promise is already fulfilled\<close>

text \<open>
  A call aborts the controller of the call before it, and a promise that is still pending
  then rejects with \<open>AbortError\<close>, which the \<open>catch\<close> block discards.
\<close>

lemma aborted_while_pending_is_silent:
  assumes "c \<in> aborted_rt s"
  shows "calls s c = Some AtFetch \<Longrightarrow>
           loop_run en [FetchSettles c r, Resume c] s = finish c None s"
    and "calls s c = Some AtJson \<Longrightarrow>
           loop_run en [JsonSettles c r', Resume c] s = finish c None s"
  using assms by (simp_all add: loop_defs)


subsection \<open>C4: when \<open>devices\<close> is replaced\<close>

text \<open>
  C4, as amended. On a successful fetch \<open>devices\<close> is replaced, and its version changes,
  exactly when the JSON text of the new snapshot differs from the JSON text of the cached
  one, which is exactly when the two differ as arrays of objects with ordered properties.
  So a snapshot identical to the cached one (same devices, same properties in the same
  order, same values) leaves \<open>devices\<close>, its version and the cache untouched, and a
  snapshot that is not deeply equal to the cached one always replaces them.
\<close>

theorem devices_replaced_iff_serialisation_differs:
  "(devicesVersion (fetchDevices_success newDevices s) \<noteq> devicesVersion s
      \<longleftrightarrow> JSON_stringify newDevices \<noteq> JSON_stringify (cacheRef s))
   \<and> (JSON_stringify newDevices \<noteq> JSON_stringify (cacheRef s) \<longleftrightarrow> newDevices \<noteq> cacheRef s)
   \<and> (newDevices = cacheRef s \<longrightarrow>
        devicesVersion (fetchDevices_success newDevices s) = devicesVersion s
        \<and> devices (fetchDevices_success newDevices s) = devices s
        \<and> cacheRef (fetchDevices_success newDevices s) = cacheRef s)
   \<and> (\<not> deep_equal newDevices (cacheRef s) \<longrightarrow>
        devicesVersion (fetchDevices_success newDevices s) = Suc (devicesVersion s)
        \<and> devices (fetchDevices_success newDevices s) = newDevices
        \<and> cacheRef (fetchDevices_success newDevices s) = newDevices)"
proof -
  have "newDevices \<noteq> cacheRef s" if "\<not> deep_equal newDevices (cacheRef s)"
    using that deep_equal_refl by auto
  then show ?thesis
    by (auto simp: fetchDevices_success_devices)
qed

theorem devices_replaced_iff_serialisation_differs_witness:
  "devicesVersion (fetchDevices_success [device_A] loaded_state) = devicesVersion loaded_state
   \<and> devices (fetchDevices_success [device_A] loaded_state) = [device_A]
   \<and> \<not> deep_equal [] (cacheRef loaded_state)
   \<and> devicesVersion (fetchDevices_success [] loaded_state) = Suc (devicesVersion loaded_state)
   \<and> devices (fetchDevices_success [] loaded_state) = []"
proof -
  have h: "[device_A] = cacheRef loaded_state" "devices loaded_state = [device_A]"
    "\<not> deep_equal [] (cacheRef loaded_state)"
    by (simp_all add: loaded_state_eq deep_equal_def)
  show ?thesis
    using devices_replaced_iff_serialisation_differs [of "[device_A]" loaded_state]
      devices_replaced_iff_serialisation_differs [of "[]" loaded_state] h
    by simp
qed

text \<open>
  C4 as stated fails: the cached snapshot is the one device with the keys \<open>id\<close>,
  \<open>name\<close>, \<open>ip\<close>, \<open>status\<close> in this order, and the next response carries the
  same device with \<open>name\<close> before \<open>id\<close>. The two snapshots are deeply equal, their
  JSON texts differ, and \<open>setDevices\<close> runs: \<open>devices\<close> gets a new identity.
\<close>

theorem reordered_keys_replace_devices:
  "well_typed_device device_A \<and> well_typed_device device_A_reordered
   \<and> deep_equal [device_A_reordered] (devices loaded_state)
   \<and> devicesVersion (run True [Call False, Settle 1 (HttpResponse 200 (Json [device_A_reordered]))]
         loaded_state) = Suc (devicesVersion loaded_state)
   \<and> devices (run True [Call False, Settle 1 (HttpResponse 200 (Json [device_A_reordered]))]
         loaded_state) = [device_A_reordered]"
  by (simp add: loaded_state_eq eval_defs)
    (simp add: device_A_def device_A_reordered_def well_typed_device_def deep_equal_def
      deep_equal_device_def all_fields_def)

subsection \<open>C5: the \<open>catch\<close> block\<close>

text \<open>
  C5. A request whose controller has been aborted settles with no change of state at all,
  nothing logged, and an \<open>AbortError\<close> reaching the \<open>catch\<close> block leaves the state as
  it is. Any other failure of a request that was not aborted is an \<open>Error\<close> whose name
  is not \<open>AbortError\<close>: it is logged, \<open>error\<close> becomes that error, \<open>isFetching\<close>
  becomes false, and \<open>isLoading\<close> becomes false when the cache is non-empty (the code's
  test for a prior snapshot) and keeps its value when the cache is empty; \<open>devices\<close> and
  the cache are not touched.
\<close>

theorem failure_branch:
  "(c \<in> aborted s \<longrightarrow> fetchDevices_resume c out s = Resolved s)
   \<and> (err_name e = ''AbortError'' \<longrightarrow> fetchDevices_catch (ThrownError e) s = s)
   \<and> (c \<notin> aborted s \<and> fetchDevices_try False out s = Inl err \<longrightarrow>
        (\<exists>cause. err = ThrownError cause
          \<and> fetchDevices_resume c out s = Resolved (fetchDevices_catch err s)
          \<and> error (fetchDevices_catch err s) = Some cause
          \<and> isFetching (fetchDevices_catch err s) = False
          \<and> isLoading (fetchDevices_catch err s) = (isLoading s \<and> cacheRef s = [])
          \<and> consoleErrors (fetchDevices_catch err s) = consoleErrors s @ [err]
          \<and> devices (fetchDevices_catch err s) = devices s
          \<and> cacheRef (fetchDevices_catch err s) = cacheRef s))"
proof -
  have "fetchDevices_catch (ThrownError e) s = s" if "err_name e = ''AbortError''"
    using that by (simp add: fetchDevices_catch_def)
  moreover have "fetchDevices_resume c out s = Resolved (fetchDevices_catch err s)"
    if "c \<notin> aborted s" "fetchDevices_try False out s = Inl err"
    using that by (simp add: fetchDevices_resume_def)
  ultimately show ?thesis
    using try_not_aborted_error_name [of out s err]
    by (auto simp: resume_aborted fetchDevices_catch_failure fetchDevices_catch_fields)
qed

theorem failure_branch_witness:
  "fetchDevices_resume 0 (HttpResponse 200 (Json [device_A]))
      (run True [Call True, Call False] initial_state)
     = Resolved (run True [Call True, Call False] initial_state)
   \<and> fetchDevices_catch (ThrownError abort_error) loaded_state = loaded_state
   \<and> error (fetchDevices_catch (ThrownError (JsError ''TypeError'' ''Failed to fetch''))
        (fetchDevices_start True False loaded_state))
       = Some (JsError ''TypeError'' ''Failed to fetch'')
   \<and> \<not> isFetching (fetchDevices_catch (ThrownError (JsError ''TypeError'' ''Failed to fetch''))
        (fetchDevices_start True False loaded_state))
   \<and> \<not> isLoading (fetchDevices_catch (ThrownError (JsError ''TypeError'' ''Failed to fetch''))
        (fetchDevices_start True False loaded_state))
   \<and> isLoading (fetchDevices_catch (ThrownError (JsError ''TypeError'' ''Failed to fetch''))
        (fetchDevices_start True True initial_state))"
proof -
  have h1: "0 \<in> aborted (run True [Call True, Call False] initial_state)"
    "err_name abort_error = ''AbortError''"
    by (simp_all add: eval_defs)
  have h2: "1 \<notin> aborted (fetchDevices_start True False loaded_state)"
    "fetchDevices_try False (NetworkFailure ''Failed to fetch'')
        (fetchDevices_start True False loaded_state)
      = Inl (ThrownError (JsError ''TypeError'' ''Failed to fetch''))"
    "cacheRef (fetchDevices_start True False loaded_state) \<noteq> []"
    by (simp_all add: loaded_state_eq eval_defs)
  have h3: "0 \<notin> aborted (fetchDevices_start True True initial_state)"
    "fetchDevices_try False (NetworkFailure ''Failed to fetch'')
        (fetchDevices_start True True initial_state)
      = Inl (ThrownError (JsError ''TypeError'' ''Failed to fetch''))"
    "cacheRef (fetchDevices_start True True initial_state) = []"
    "isLoading (fetchDevices_start True True initial_state)"
    by (simp_all add: eval_defs)
  show ?thesis
    using failure_branch [of 0 "run True [Call True, Call False] initial_state"
        "HttpResponse 200 (Json [device_A])" abort_error]
      failure_branch [of 0 loaded_state "NetworkFailure []" abort_error]
      failure_branch [of 1 "fetchDevices_start True False loaded_state"
        "NetworkFailure ''Failed to fetch''" abort_error
        "ThrownError (JsError ''TypeError'' ''Failed to fetch'')"]
      failure_branch [of 0 "fetchDevices_start True True initial_state"
        "NetworkFailure ''Failed to fetch''" abort_error
        "ThrownError (JsError ''TypeError'' ''Failed to fetch'')"]
      h1 h2 h3
    by simp
qed

subsection \<open>C6: the flags at the start of a cycle\<close>

text \<open>
  C6 says that a cycle starts by setting \<open>isFetching\<close> to true exactly when a prior
  snapshot exists and the call is not the initial one, and by setting \<open>isLoading\<close> to true
  otherwise. The code does not keep this after a snapshot that is empty. At
  \<open>empty_snapshot_state\<close> the initial fetch has succeeded with the body \<open>[]\<close>: no error,
  \<open>isLoading\<close> false, the snapshot received. A call that is not the initial one then
  leaves \<open>isFetching\<close> false and sets \<open>isLoading\<close> to true, because the code tests the
  length of the cached list where the claim asks whether a snapshot exists. It is the
  defect of C2, seen at the start of the cycle.
\<close>

theorem poll_after_empty_snapshot_sets_isLoading_not_isFetching:
  "error empty_snapshot_state = None
   \<and> \<not> isLoading empty_snapshot_state
   \<and> cacheRef empty_snapshot_state = []
   \<and> pending empty_snapshot_state = []
   \<and> \<not> isFetching (fetchDevices_start True False empty_snapshot_state)
   \<and> isLoading (fetchDevices_start True False empty_snapshot_state)"
  by (simp add: empty_snapshot_state_def eval_defs)

subsection \<open>C7: which responses fail\<close>

text \<open>
  C7. A request that was not aborted takes the failure branch exactly when the network
  fails, the response status is outside 200..299, or the body does not parse; an aborted
  one always does. A status outside 200..299 throws the \<open>Error\<close> whose message ends in
  the decimal digits of the status, whatever the body, and that error is what \<open>error\<close>
  holds afterwards; the digits determine the status. A 2xx response with a parseable body
  goes on to the success path with the parsed device list.
\<close>

theorem non_2xx_fails_with_status:
  "((\<exists>err. fetchDevices_try False out s = Inl err)
      \<longleftrightarrow> (case out of
             NetworkFailure msg \<Rightarrow> True
           | HttpResponse st body \<Rightarrow>
               \<not> response_ok st \<or> (case body of Malformed msg \<Rightarrow> True | Json ds \<Rightarrow> False)))
   \<and> fetchDevices_try True out s = Inl (ThrownError abort_error)
   \<and> (\<not> response_ok status \<longrightarrow>
        fetchDevices_try False (HttpResponse status body) s
          = Inl (ThrownError (JsError ''Error'' (''HTTP error! status: '' @ decimal status)))
        \<and> (c \<notin> aborted s \<longrightarrow>
             fetchDevices_resume c (HttpResponse status body) s
               = Resolved (fetchDevices_catch
                   (ThrownError (JsError ''Error'' (''HTTP error! status: '' @ decimal status))) s)
             \<and> error (fetchDevices_catch
                   (ThrownError (JsError ''Error'' (''HTTP error! status: '' @ decimal status))) s)
               = Some (JsError ''Error'' (''HTTP error! status: '' @ decimal status))))
   \<and> (decimal status = decimal status' \<longrightarrow> status = status')
   \<and> (response_ok status \<longrightarrow>
        fetchDevices_try False (HttpResponse status (Json ds)) s
          = Inr (fetchDevices_success ds s))"
proof -
  have bad: "fetchDevices_try False (HttpResponse status body) s
      = Inl (ThrownError (JsError ''Error'' (''HTTP error! status: '' @ decimal status)))"
    if "\<not> response_ok status"
    using that by (simp add: fetchDevices_try_def fetch_api_def)
  have "fetchDevices_resume c (HttpResponse status body) s
      = Resolved (fetchDevices_catch
          (ThrownError (JsError ''Error'' (''HTTP error! status: '' @ decimal status))) s)"
    if "\<not> response_ok status" "c \<notin> aborted s"
    using that bad by (simp add: fetchDevices_resume_def)
  moreover have "fetchDevices_try False (HttpResponse status (Json ds)) s
      = Inr (fetchDevices_success ds s)"
    if "response_ok status"
    using that by (simp add: fetchDevices_try_def fetch_api_def response_json_def)
  ultimately show ?thesis
    using try_fails_iff [of out s] bad decimal_inj [of status status']
    by (simp add: fetchDevices_catch_failure try_aborted)
qed

theorem non_2xx_fails_with_status_witness:
  "\<not> response_ok 503
   \<and> 1 \<notin> aborted (fetchDevices_start True False loaded_state)
   \<and> fetchDevices_try False (HttpResponse 503 (Json [device_A]))
        (fetchDevices_start True False loaded_state)
       = Inl (ThrownError (JsError ''Error'' ''HTTP error! status: 503''))
   \<and> error (fetchDevices_catch (ThrownError (JsError ''Error'' ''HTTP error! status: 503''))
        (fetchDevices_start True False loaded_state))
       = Some (JsError ''Error'' ''HTTP error! status: 503'')
   \<and> response_ok 200
   \<and> fetchDevices_try False (HttpResponse 200 (Json [device_A]))
        (fetchDevices_start True False loaded_state)
       = Inr (fetchDevices_success [device_A] (fetchDevices_start True False loaded_state))"
proof -
  have h: "\<not> response_ok 503" "response_ok 200"
    "1 \<notin> aborted (fetchDevices_start True False loaded_state)"
    by (simp_all add: response_ok_def loaded_state_eq fetchDevices_start_def Let_def)
  show ?thesis
    using non_2xx_fails_with_status
        [of "HttpResponse 503 (Json [device_A])" "fetchDevices_start True False loaded_state"
            503 "Json [device_A]" 1 503 "[device_A]"]
      non_2xx_fails_with_status
        [of "HttpResponse 200 (Json [device_A])" "fetchDevices_start True False loaded_state"
            200 "Json [device_A]" 1 200 "[device_A]"]
      h
    by (simp add: decimal_503)
qed

subsection \<open>C8: \<open>devices\<close> mirrors the cache\<close>

text \<open>
  C8. The state cell \<open>devices\<close> and the ref \<open>cacheRef\<close> hold the same list: both start
  empty, every event either leaves both as they were or leaves them equal, and so they are
  equal after every sequence of events.
\<close>

theorem devices_mirror_cache:
  "devices initial_state = [] \<and> cacheRef initial_state = []
   \<and> (devices (step en e s) = devices s \<and> cacheRef (step en e s) = cacheRef s
      \<or> devices (step en e s) = cacheRef (step en e s))
   \<and> devices (run en evs initial_state) = cacheRef (run en evs initial_state)"
proof -
  have "devices initial_state = cacheRef initial_state"
    by (simp add: initial_state_def)
  then have "devices (run en evs initial_state) = cacheRef (run en evs initial_state)"
    by (rule run_devices_cache)
  then show ?thesis
    using step_devices_cache [of en e s] by (simp add: initial_state_def)
qed

theorem devices_mirror_cache_witness:
  "devices (run True [Call True, Settle 0 (HttpResponse 200 (Json [device_A])), Call False,
                      Settle 1 (NetworkFailure ''Failed to fetch'')] initial_state) = [device_A]
   \<and> cacheRef (run True [Call True, Settle 0 (HttpResponse 200 (Json [device_A])), Call False,
                      Settle 1 (NetworkFailure ''Failed to fetch'')] initial_state) = [device_A]"
proof -
  have "devices (run True [Call True, Settle 0 (HttpResponse 200 (Json [device_A])), Call False,
                      Settle 1 (NetworkFailure ''Failed to fetch'')] initial_state) = [device_A]"
    by (simp add: eval_defs)
  then show ?thesis
    using devices_mirror_cache [of True "Call False" initial_state
        "[Call True, Settle 0 (HttpResponse 200 (Json [device_A])), Call False,
          Settle 1 (NetworkFailure ''Failed to fetch'')]"]
    by simp
qed

subsection \<open>C9: an empty array is not a snapshot\<close>

text \<open>
  C9. After a successful fetch of the empty array the cache is empty, whatever it held
  before, and \<open>isLoading\<close> is false. The next non-initial call then sets \<open>isLoading\<close> to
  true and leaves \<open>isFetching\<close> false, and a failure other than a cancellation, arriving
  before or after that call, leaves \<open>isLoading\<close> as it finds it.
\<close>

theorem empty_snapshot_is_no_snapshot:
  "cacheRef (fetchDevices_success [] s) = []
   \<and> isLoading (fetchDevices_success [] s) = False
   \<and> isLoading (fetchDevices_start True False (fetchDevices_success [] s)) = True
   \<and> isFetching (fetchDevices_start True False (fetchDevices_success [] s)) = False
   \<and> (err_name e \<noteq> ''AbortError'' \<longrightarrow>
        isLoading (fetchDevices_catch (ThrownError e) (fetchDevices_success [] s))
          = isLoading (fetchDevices_success [] s)
        \<and> isLoading (fetchDevices_catch (ThrownError e)
             (fetchDevices_start True False (fetchDevices_success [] s)))
          = isLoading (fetchDevices_start True False (fetchDevices_success [] s)))"
  by (simp add: fetchDevices_success_devices fetchDevices_start_isLoading
      fetchDevices_start_isFetching fetchDevices_catch_failure fetchDevices_start_fields)

theorem empty_snapshot_is_no_snapshot_witness:
  "cacheRef (fetchDevices_success [] loaded_state) = []
   \<and> isLoading (fetchDevices_start True False (fetchDevices_success [] loaded_state))
   \<and> isLoading (fetchDevices_catch (ThrownError (JsError ''TypeError'' ''Failed to fetch''))
        (fetchDevices_start True False (fetchDevices_success [] loaded_state)))
   \<and> \<not> isLoading (fetchDevices_catch (ThrownError (JsError ''TypeError'' ''Failed to fetch''))
        (fetchDevices_success [] loaded_state))"
proof -
  have h: "err_name (JsError ''TypeError'' ''Failed to fetch'') \<noteq> ''AbortError''"
    by simp
  show ?thesis
    using empty_snapshot_is_no_snapshot
      [of loaded_state "JsError ''TypeError'' ''Failed to fetch''"] h
    by simp
qed

subsection \<open>C10: when the promise of \<open>fetchDevices\<close> rejects\<close>




end
